theory Spec2Isabelle
  imports Complex_Main
begin

section \<open>JavaScript numbers\<close>

text \<open>
  The engine computes with JavaScript numbers, that is IEEE-754 binary64 values. A number
  is NaN, one of the two infinities, or a finite real; every arithmetic operation computes
  the exact real result and rounds it to the nearest double (ties to even, gradual
  underflow, overflow to an infinity). The two zeros are identified, and a division by
  zero takes the zero as +0.
\<close>

datatype jsnum = NaN | NInf | PInf | Fin real

definition pow2 :: "int \<Rightarrow> real" where
  "pow2 e = 2 powi e"

text \<open>
  The binade of a positive real \<open>a\<close> with \<open>pow2 lo \<le> a < pow2 hi\<close>: the exponent \<open>e\<close>
  with \<open>pow2 e \<le> a < pow2 (e + 1)\<close>, found by bisection.
\<close>

function expo :: "int \<Rightarrow> int \<Rightarrow> real \<Rightarrow> int" where
  "expo lo hi a =
     (if hi \<le> lo + 1 then lo
      else if pow2 ((lo + hi) div 2) \<le> a then expo ((lo + hi) div 2) hi a
      else expo lo ((lo + hi) div 2) a)"
  by pat_completeness auto
termination
  by (relation "measure (\<lambda>(lo, hi, a). nat (hi - lo))") auto

declare expo.simps [simp del]

text \<open>The exponent that fixes the spacing of the doubles around \<open>a\<close>; below the normal range it is -1022.\<close>

definition fexp :: "real \<Rightarrow> int" where
  "fexp a = (if a < pow2 (- 1022) then - 1022 else expo (- 1022) 1024 a)"

text \<open>Rounding to the nearest integer, ties to the even one.\<close>

definition rne :: "real \<Rightarrow> int" where
  "rne q =
     (let f = \<lfloor>q\<rfloor>; d = q - of_int f
      in if d < 1 / 2 then f else if 1 / 2 < d then f + 1 else if even f then f else f + 1)"

definition overflow :: "real \<Rightarrow> jsnum" where
  "overflow x = (if 0 < x then PInf else NInf)"

text \<open>
  Rounding a real to a double: a multiple of \<open>pow2 (e - 52)\<close> for the exponent \<open>e\<close> of
  its binade, or an infinity from \<open>pow2 1024\<close> on.
\<close>

definition fl :: "real \<Rightarrow> jsnum" where
  "fl x =
     (if pow2 1024 \<le> \<bar>x\<bar> then overflow x
      else let u = pow2 (fexp \<bar>x\<bar> - 52);
               r = of_int (rne (x / u)) * u
           in if pow2 1024 \<le> \<bar>r\<bar> then overflow x else Fin r)"

fun js_neg :: "jsnum \<Rightarrow> jsnum" where
  "js_neg NaN = NaN"
| "js_neg NInf = PInf"
| "js_neg PInf = NInf"
| "js_neg (Fin a) = Fin (- a)"

fun js_add :: "jsnum \<Rightarrow> jsnum \<Rightarrow> jsnum" where
  "js_add (Fin a) (Fin b) = fl (a + b)"
| "js_add NaN _ = NaN"
| "js_add _ NaN = NaN"
| "js_add PInf NInf = NaN"
| "js_add NInf PInf = NaN"
| "js_add PInf _ = PInf"
| "js_add _ PInf = PInf"
| "js_add NInf _ = NInf"
| "js_add _ NInf = NInf"

definition js_sub :: "jsnum \<Rightarrow> jsnum \<Rightarrow> jsnum" where
  "js_sub a b = js_add a (js_neg b)"

fun js_mul :: "jsnum \<Rightarrow> jsnum \<Rightarrow> jsnum" where
  "js_mul (Fin a) (Fin b) = fl (a * b)"
| "js_mul NaN _ = NaN"
| "js_mul _ NaN = NaN"
| "js_mul (Fin a) PInf = (if a = 0 then NaN else if 0 < a then PInf else NInf)"
| "js_mul (Fin a) NInf = (if a = 0 then NaN else if 0 < a then NInf else PInf)"
| "js_mul PInf (Fin b) = (if b = 0 then NaN else if 0 < b then PInf else NInf)"
| "js_mul NInf (Fin b) = (if b = 0 then NaN else if 0 < b then NInf else PInf)"
| "js_mul PInf PInf = PInf"
| "js_mul NInf NInf = PInf"
| "js_mul PInf NInf = NInf"
| "js_mul NInf PInf = NInf"

fun js_div :: "jsnum \<Rightarrow> jsnum \<Rightarrow> jsnum" where
  "js_div (Fin a) (Fin b) =
     (if b = 0 then (if a = 0 then NaN else if 0 < a then PInf else NInf)
      else fl (a / b))"
| "js_div NaN _ = NaN"
| "js_div _ NaN = NaN"
| "js_div (Fin a) _ = Fin 0"
| "js_div PInf (Fin b) = (if 0 \<le> b then PInf else NInf)"
| "js_div NInf (Fin b) = (if 0 \<le> b then NInf else PInf)"
| "js_div PInf PInf = NaN"
| "js_div PInf NInf = NaN"
| "js_div NInf PInf = NaN"
| "js_div NInf NInf = NaN"

fun js_lt :: "jsnum \<Rightarrow> jsnum \<Rightarrow> bool" where
  "js_lt (Fin a) (Fin b) = (a < b)"
| "js_lt NaN _ = False"
| "js_lt _ NaN = False"
| "js_lt _ NInf = False"
| "js_lt NInf _ = True"
| "js_lt PInf _ = False"
| "js_lt _ PInf = True"

definition js_gt :: "jsnum \<Rightarrow> jsnum \<Rightarrow> bool" where
  "js_gt a b = js_lt b a"

definition js_le :: "jsnum \<Rightarrow> jsnum \<Rightarrow> bool" where
  "js_le a b = (a \<noteq> NaN \<and> b \<noteq> NaN \<and> \<not> js_lt b a)"

definition js_ge :: "jsnum \<Rightarrow> jsnum \<Rightarrow> bool" where
  "js_ge a b = js_le b a"

text \<open>Strict equality \<open>===\<close> on numbers: NaN is not equal to itself.\<close>

definition js_eq :: "jsnum \<Rightarrow> jsnum \<Rightarrow> bool" where
  "js_eq a b = (a \<noteq> NaN \<and> a = b)"

fun js_abs :: "jsnum \<Rightarrow> jsnum" where
  "js_abs NaN = NaN"
| "js_abs NInf = PInf"
| "js_abs PInf = PInf"
| "js_abs (Fin a) = Fin \<bar>a\<bar>"

text \<open>\<open>Math.max\<close> of two numbers: NaN as soon as one of them is.\<close>

definition js_max :: "jsnum \<Rightarrow> jsnum \<Rightarrow> jsnum" where
  "js_max a b = (if a = NaN \<or> b = NaN then NaN else if js_lt a b then b else a)"

text \<open>
  Loop counters and array lengths are whole numbers far below \<open>2^53\<close>, where counting in
  doubles is exact; they are kept as natural numbers and enter the arithmetic through
  \<open>num\<close>.
\<close>

definition num :: "nat \<Rightarrow> jsnum" where
  "num n = Fin (real n)"

text \<open>
  Reading an array of numbers at a whole index outside it gives \<open>undefined\<close>, which every
  numeric comparison converts to NaN.
\<close>

definition js_nth :: "jsnum list \<Rightarrow> int \<Rightarrow> jsnum" where
  "js_nth xs i = (if 0 \<le> i \<and> i < int (length xs) then xs ! nat i else NaN)"

text \<open>
  \<open>Array.prototype.slice(start, end)\<close>: each bound is truncated to a whole number (NaN
  counts as 0), a negative bound counts from the end, and both are clamped to the array.
\<close>

definition js_trunc :: "real \<Rightarrow> int" where
  "js_trunc x = (if 0 \<le> x then \<lfloor>x\<rfloor> else \<lceil>x\<rceil>)"

fun rel_index :: "nat \<Rightarrow> jsnum \<Rightarrow> nat" where
  "rel_index n NaN = 0"
| "rel_index n NInf = 0"
| "rel_index n PInf = n"
| "rel_index n (Fin x) =
     (if js_trunc x < 0 then nat (max (int n + js_trunc x) 0)
      else nat (min (js_trunc x) (int n)))"

definition js_slice :: "'a list \<Rightarrow> jsnum \<Rightarrow> jsnum \<Rightarrow> 'a list" where
  "js_slice xs s e =
     (let k = rel_index (length xs) s;
          f = rel_index (length xs) e
      in take (f - k) (drop k xs))"

text \<open>
  A number used as a key of an array addresses an element only if it is a whole number
  that is not negative; any other number names an ordinary property.
\<close>

fun as_index :: "jsnum \<Rightarrow> nat option" where
  "as_index (Fin x) = (if 0 \<le> x \<and> x = of_int \<lfloor>x\<rfloor> then Some (nat \<lfloor>x\<rfloor>) else None)"
| "as_index _ = None"

text \<open>
  \<open>arr[i] = v\<close>: inside the array the element is replaced; an index past the end extends
  the array with holes, which read as \<open>undefined\<close>; a key that is not an index only sets a
  property and leaves the elements alone.
\<close>

definition js_store :: "jsnum list \<Rightarrow> jsnum \<Rightarrow> jsnum \<Rightarrow> jsnum list" where
  "js_store arr i v =
     (case as_index i of
        None \<Rightarrow> arr
      | Some k \<Rightarrow>
          if k < length arr then arr[k := v]
          else arr @ replicate (k - length arr) NaN @ [v])"

section \<open>Data model (types.ts)\<close>

datatype SignalType = BUY | SELL | HOLD

record MarketData =
  date :: string
  close :: jsnum
  open' :: jsnum
  high :: jsnum
  low :: jsnum
  volume :: jsnum

datatype Mode = ALGO | AI

datatype Exchange = BINANCE | OKX | COINBASE

record Trade =
  date :: string
  type :: SignalType
  price :: jsnum
  amount :: jsnum
  balanceAfter :: jsnum
  reason :: string

record StrategyConfig =
  mode :: Mode
  exchange :: Exchange
  symbol :: string
  initialCapital :: jsnum
  shortWindow :: jsnum
  longWindow :: jsnum
  rsiPeriod :: jsnum
  rsiOverbought :: jsnum
  rsiOversold :: jsnum
  useRsiFilter :: bool

record HistoryPoint =
  date :: string
  balance :: jsnum

record BacktestResult =
  trades :: "Trade list"
  finalBalance :: jsnum
  totalReturn :: jsnum
  winRate :: jsnum
  maxDrawdown :: jsnum
  history :: "HistoryPoint list"

record AiSignal =
  date :: string
  action :: SignalType
  reason :: string
  confidence :: "jsnum option"
  strategySource :: "string option"

section \<open>Indicators (marketService.ts)\<close>

definition calculateSMA :: "MarketData list \<Rightarrow> jsnum \<Rightarrow> jsnum list" where
  "calculateSMA data windowSize =
     map (\<lambda>idx.
            if js_lt (num idx) (js_sub windowSize (Fin 1)) then NaN
            else let slice = js_slice data (js_add (js_sub (num idx) windowSize) (Fin 1))
                                           (js_add (num idx) (Fin 1));
                     sum = foldl (\<lambda>acc curr. js_add acc (close curr)) (Fin 0) slice
                 in js_div sum windowSize)
         [0..<length data]"

text \<open>
  \<open>data[i].close\<close> with \<open>i\<close> outside the array reads a property of \<open>undefined\<close>
  and throws a TypeError, the only error the engine can raise.
\<close>

datatype error = TypeError

definition close_at :: "MarketData list \<Rightarrow> int \<Rightarrow> error + jsnum" where
  "close_at data i =
     (if 0 \<le> i \<and> i < int (length data) then Inr (close (data ! nat i)) else Inl TypeError)"

text \<open>\<open>data[i].close - data[i - 1].close\<close>\<close>

definition close_diff :: "MarketData list \<Rightarrow> int \<Rightarrow> error + jsnum" where
  "close_diff data i =
     (case close_at data i of
        Inl e \<Rightarrow> Inl e
      | Inr a \<Rightarrow> (case close_at data (i - 1) of
                    Inl e \<Rightarrow> Inl e
                  | Inr b \<Rightarrow> Inr (js_sub a b)))"

text \<open>The seed loop \<open>for (let i = 1; i <= period; i++)\<close>, carrying gains and losses.\<close>

function rsi_seed ::
  "MarketData list \<Rightarrow> jsnum \<Rightarrow> nat \<Rightarrow> jsnum \<Rightarrow> jsnum \<Rightarrow> error + (jsnum \<times> jsnum)" where
  "rsi_seed data period i gains losses =
     (if js_le (num i) period then
        (case close_diff data (int i) of
           Inl e \<Rightarrow> Inl e
         | Inr diff \<Rightarrow>
             if js_gt diff (Fin 0) then rsi_seed data period (Suc i) (js_add gains diff) losses
             else rsi_seed data period (Suc i) gains (js_add losses (js_abs diff)))
      else Inr (gains, losses))"
  by pat_completeness auto
termination
  by (relation "measure (\<lambda>(data, period, i, gains, losses). length data - i)")
     (auto simp: close_diff_def close_at_def split: if_splits sum.splits)

declare rsi_seed.simps [simp del]

text \<open>\<open>100 - (100 / (1 + avgGain / (avgLoss === 0 ? 1 : avgLoss)))\<close>\<close>

definition rsi_value :: "jsnum \<Rightarrow> jsnum \<Rightarrow> jsnum" where
  "rsi_value avgGain avgLoss =
     (let rs = js_div avgGain (if js_eq avgLoss (Fin 0) then Fin 1 else avgLoss)
      in js_sub (Fin 100) (js_div (Fin 100) (js_add (Fin 1) rs)))"

text \<open>Wilder's smoothing \<open>(avg * (period - 1) + x) / period\<close>\<close>

definition smooth :: "jsnum \<Rightarrow> jsnum \<Rightarrow> jsnum \<Rightarrow> jsnum" where
  "smooth period avg x =
     js_div (js_add (js_mul avg (js_sub period (Fin 1))) x) period"

text \<open>The body of the main loop, iterated from a whole index \<open>i\<close> while \<open>i < data.length\<close>.\<close>

function rsi_loop ::
  "MarketData list \<Rightarrow> jsnum \<Rightarrow> nat \<Rightarrow> jsnum \<Rightarrow> jsnum \<Rightarrow> jsnum list \<Rightarrow> error + jsnum list" where
  "rsi_loop data period i avgGain avgLoss rsiArray =
     (if i < length data then
        (case close_diff data (int i) of
           Inl e \<Rightarrow> Inl e
         | Inr diff \<Rightarrow>
             rsi_loop data period (Suc i)
               (smooth period avgGain (if js_gt diff (Fin 0) then diff else Fin 0))
               (smooth period avgLoss (if js_lt diff (Fin 0) then js_abs diff else Fin 0))
               (js_store rsiArray (num i)
                  (rsi_value
                     (smooth period avgGain (if js_gt diff (Fin 0) then diff else Fin 0))
                     (smooth period avgLoss (if js_lt diff (Fin 0) then js_abs diff else Fin 0)))))
      else Inr rsiArray)"
  by pat_completeness auto
termination
  by (relation "measure (\<lambda>(data, period, i, avgGain, avgLoss, rsiArray). length data - i)") auto

declare rsi_loop.simps [simp del]

text \<open>
  The main loop \<open>for (let i = period + 1; i < data.length; i++)\<close>. Its start is a number:
  when the loop is entered with a start that is not a whole index, \<open>data[i]\<close> is
  \<open>undefined\<close> and the first iteration throws.
\<close>

definition rsi_main ::
  "MarketData list \<Rightarrow> jsnum \<Rightarrow> jsnum \<Rightarrow> jsnum \<Rightarrow> jsnum list \<Rightarrow> error + jsnum list" where
  "rsi_main data period avgGain avgLoss rsiArray =
     (let start = js_add period (Fin 1)
      in if js_lt start (num (length data)) then
           (case as_index start of
              None \<Rightarrow> Inl TypeError
            | Some i \<Rightarrow> rsi_loop data period i avgGain avgLoss rsiArray)
         else Inr rsiArray)"

definition calculateRSI :: "MarketData list \<Rightarrow> jsnum \<Rightarrow> error + jsnum list" where
  "calculateRSI data period =
     (let rsiArray = replicate (length data) NaN in
      if js_le (num (length data)) period then Inr rsiArray
      else
        (case rsi_seed data period 1 (Fin 0) (Fin 0) of
           Inl e \<Rightarrow> Inl e
         | Inr (gains, losses) \<Rightarrow>
             let avgGain = js_div gains period;
                 avgLoss = js_div losses period
             in rsi_main data period avgGain avgLoss
                  (js_store rsiArray period (rsi_value avgGain avgLoss))))"

section \<open>The backtest engine (marketService.ts)\<close>

text \<open>The variables \<open>runBacktest\<close> updates in its loop.\<close>

record Sim =
  cash :: jsnum
  holdings :: jsnum
  trades :: "Trade list"
  history :: "HistoryPoint list"
  peakBalance :: jsnum
  maxDrawdown :: jsnum

text \<open>\<open>aiSignals.forEach(s => aiSignalMap.set(s.date, s))\<close>, only in AI mode.\<close>

definition aiSignalMap :: "StrategyConfig \<Rightarrow> AiSignal list option \<Rightarrow> (string \<rightharpoonup> AiSignal)" where
  "aiSignalMap config aiSignals =
     (case aiSignals of
        Some sigs \<Rightarrow>
          if mode config = AI then fold (\<lambda>s m. m(AiSignal.date s \<mapsto> s)) sigs Map.empty
          else Map.empty
      | None \<Rightarrow> Map.empty)"

text \<open>The decision at index \<open>i\<close>: the signal and the reason text.\<close>

definition decide ::
  "StrategyConfig \<Rightarrow> jsnum list \<Rightarrow> jsnum list \<Rightarrow> jsnum list \<Rightarrow> (string \<rightharpoonup> AiSignal)
     \<Rightarrow> string \<Rightarrow> nat \<Rightarrow> SignalType \<times> string" where
  "decide config shortSMA longSMA rsi sigmap dt i =
     (if mode config = AI then
        (case sigmap dt of
           Some aiDecision \<Rightarrow> (action aiDecision, AiSignal.reason aiDecision)
         | None \<Rightarrow> (HOLD, []))
      else
        (let prevShort = js_nth shortSMA (int i - 1);
             currShort = js_nth shortSMA (int i);
             prevLong = js_nth longSMA (int i - 1);
             currLong = js_nth longSMA (int i);
             currRSI = js_nth rsi (int i);
             crossoverBuy = (js_le prevShort prevLong \<and> js_gt currShort currLong);
             crossoverSell = (js_ge prevShort prevLong \<and> js_lt currShort currLong);
             rsiBuyAllowed = (\<not> useRsiFilter config \<or> js_lt currRSI (rsiOversold config));
             rsiSellForce = (useRsiFilter config \<and> js_gt currRSI (rsiOverbought config))
         in if crossoverBuy \<and> rsiBuyAllowed then (BUY, [])
            else if crossoverSell \<or> rsiSellForce then (SELL, [])
            else (HOLD, [])))"

text \<open>\<open>reason || 'Technical Signal'\<close>: the empty string is falsy.\<close>

definition reason_or :: "string \<Rightarrow> string" where
  "reason_or r = (if r = [] then ''Technical Signal'' else r)"

text \<open>
  The block under \<open>// Execute Trade\<close>. The literal \<open>0.99\<close> is the double nearest to
  99/100.
\<close>

definition executeTrade :: "Sim \<Rightarrow> SignalType \<Rightarrow> string \<Rightarrow> jsnum \<Rightarrow> string \<Rightarrow> Sim" where
  "executeTrade st signal rsn px dt =
     (if signal = BUY \<and> js_gt (cash st) px then
        (let amountToBuy = js_div (js_mul (cash st) (fl (99 / 100))) px in
         if js_gt amountToBuy (Fin 0) then
           (let cost = js_mul amountToBuy px in
            if js_le cost (cash st) then
              (let cash' = js_sub (cash st) cost;
                   holdings' = js_add (holdings st) amountToBuy
               in st\<lparr>cash := cash', holdings := holdings',
                      Sim.trades := Sim.trades st @
                        [\<lparr>Trade.date = dt, type = BUY, price = px, amount = amountToBuy,
                          balanceAfter = js_add cash' (js_mul holdings' px),
                          reason = reason_or rsn\<rparr>]\<rparr>)
            else st)
         else st)
      else if signal = SELL \<and> js_gt (holdings st) (Fin 0) then
        (let cash' = js_add (cash st) (js_mul (holdings st) px)
         in st\<lparr>cash := cash', holdings := Fin 0,
                Sim.trades := Sim.trades st @
                  [\<lparr>Trade.date = dt, type = SELL, price = px, amount = holdings st,
                    balanceAfter = cash', reason = reason_or rsn\<rparr>]\<rparr>)
      else st)"

text \<open>The bookkeeping after the trade: the equity point, the peak and the drawdown.\<close>

definition record_equity :: "Sim \<Rightarrow> jsnum \<Rightarrow> string \<Rightarrow> Sim" where
  "record_equity st px dt =
     (let currentTotalValue = js_add (cash st) (js_mul (holdings st) px);
          peak = (if js_gt currentTotalValue (peakBalance st) then currentTotalValue
                  else peakBalance st);
          drawdown = js_div (js_sub peak currentTotalValue) peak
      in st\<lparr>Sim.history := Sim.history st @ [\<lparr>HistoryPoint.date = dt, balance = currentTotalValue\<rparr>],
             peakBalance := peak,
             Sim.maxDrawdown := (if js_gt drawdown (Sim.maxDrawdown st) then drawdown
                                 else Sim.maxDrawdown st)\<rparr>)"

text \<open>
  One iteration of the loop over \<open>i = 0, ..., data.length - 1\<close>; the index is inside
  the series, so \<open>data[i]\<close> is defined.
\<close>

definition step ::
  "MarketData list \<Rightarrow> StrategyConfig \<Rightarrow> jsnum list \<Rightarrow> jsnum list \<Rightarrow> jsnum list
     \<Rightarrow> (string \<rightharpoonup> AiSignal) \<Rightarrow> nat \<Rightarrow> Sim \<Rightarrow> Sim" where
  "step data config shortSMA longSMA rsi sigmap i st =
     (let px = close (data ! i);
          dt = MarketData.date (data ! i)
      in if mode config = ALGO \<and>
            js_lt (num i) (js_max (longWindow config) (rsiPeriod config)) then
           st\<lparr>Sim.history := Sim.history st @ [\<lparr>HistoryPoint.date = dt, balance = cash st\<rparr>]\<rparr>
         else
           (case decide config shortSMA longSMA rsi sigmap dt i of
              (signal, rsn) \<Rightarrow> record_equity (executeTrade st signal rsn px dt) px dt))"

definition initial :: "StrategyConfig \<Rightarrow> Sim" where
  "initial config =
     \<lparr>cash = initialCapital config, holdings = Fin 0, trades = [], history = [],
      peakBalance = initialCapital config, maxDrawdown = Fin 0\<rparr>"

text \<open>The state after the first \<open>k\<close> iterations of the loop.\<close>

definition simulate ::
  "MarketData list \<Rightarrow> StrategyConfig \<Rightarrow> jsnum list \<Rightarrow> jsnum list \<Rightarrow> jsnum list
     \<Rightarrow> (string \<rightharpoonup> AiSignal) \<Rightarrow> nat \<Rightarrow> Sim" where
  "simulate data config shortSMA longSMA rsi sigmap k =
     fold (step data config shortSMA longSMA rsi sigmap) [0..<k] (initial config)"

text \<open>
  The backward scan \<open>for (let j = i - 1; j >= 0; j--)\<close> for the entry price of the
  sell at index \<open>i\<close>; the argument is \<open>j + 1\<close>.
\<close>

fun entryPrice :: "Trade list \<Rightarrow> nat \<Rightarrow> jsnum" where
  "entryPrice ts 0 = Fin 0"
| "entryPrice ts (Suc j) = (if type (ts ! j) = BUY then price (ts ! j) else entryPrice ts j)"

definition profitable :: "Trade list \<Rightarrow> nat \<Rightarrow> bool" where
  "profitable ts i =
     (if type (ts ! i) = SELL then js_gt (price (ts ! i)) (entryPrice ts i) else False)"

definition calcWinRate :: "Trade list \<Rightarrow> jsnum" where
  "calcWinRate ts =
     (let profitableTrades = length (filter (profitable ts) [0..<length ts]);
          sellTradesCount = length (filter (\<lambda>t. type t = SELL) ts)
      in if 0 < sellTradesCount
         then js_mul (js_div (num profitableTrades) (num sellTradesCount)) (Fin 100)
         else Fin 0)"

text \<open>The summary computed after the loop from the final state and the last close.\<close>

definition report :: "StrategyConfig \<Rightarrow> Sim \<Rightarrow> jsnum \<Rightarrow> BacktestResult" where
  "report config st lastClose =
     (let finalBalance = js_add (cash st) (js_mul (holdings st) lastClose);
          totalReturn =
            js_mul (js_div (js_sub finalBalance (initialCapital config))
                           (initialCapital config)) (Fin 100)
      in \<lparr>BacktestResult.trades = Sim.trades st,
          finalBalance = finalBalance,
          totalReturn = totalReturn,
          winRate = calcWinRate (Sim.trades st),
          BacktestResult.maxDrawdown = js_mul (Sim.maxDrawdown st) (Fin 100),
          BacktestResult.history = Sim.history st\<rparr>)"

definition runBacktest ::
  "MarketData list \<Rightarrow> StrategyConfig \<Rightarrow> AiSignal list option \<Rightarrow> error + BacktestResult" where
  "runBacktest data config aiSignals =
     (let shortSMA = calculateSMA data (shortWindow config);
          longSMA = calculateSMA data (longWindow config)
      in case calculateRSI data (rsiPeriod config) of
           Inl e \<Rightarrow> Inl e
         | Inr rsi \<Rightarrow>
             (let st = simulate data config shortSMA longSMA rsi
                         (aiSignalMap config aiSignals) (length data)
              in case close_at data (int (length data) - 1) of
                   Inl e \<Rightarrow> Inl e
                 | Inr lastClose \<Rightarrow> Inr (report config st lastClose)))"

section \<open>Auxiliary notions for the properties\<close>

text \<open>The amount a BUY would purchase, and the two state updates of \<open>executeTrade\<close>.\<close>

definition buy_amount :: "Sim \<Rightarrow> jsnum \<Rightarrow> jsnum" where
  "buy_amount st px = js_div (js_mul (cash st) (fl (99 / 100))) px"

definition bought :: "Sim \<Rightarrow> string \<Rightarrow> jsnum \<Rightarrow> string \<Rightarrow> Sim" where
  "bought st rsn px dt =
     st\<lparr>cash := js_sub (cash st) (js_mul (buy_amount st px) px),
        holdings := js_add (holdings st) (buy_amount st px),
        Sim.trades := Sim.trades st @
          [\<lparr>Trade.date = dt, type = BUY, price = px, amount = buy_amount st px,
            balanceAfter = js_add (js_sub (cash st) (js_mul (buy_amount st px) px))
                             (js_mul (js_add (holdings st) (buy_amount st px)) px),
            reason = reason_or rsn\<rparr>]\<rparr>"

definition sold :: "Sim \<Rightarrow> string \<Rightarrow> jsnum \<Rightarrow> string \<Rightarrow> Sim" where
  "sold st rsn px dt =
     st\<lparr>cash := js_add (cash st) (js_mul (holdings st) px), holdings := Fin 0,
        Sim.trades := Sim.trades st @
          [\<lparr>Trade.date = dt, type = SELL, price = px, amount = holdings st,
            balanceAfter = js_add (cash st) (js_mul (holdings st) px),
            reason = reason_or rsn\<rparr>]\<rparr>"

text \<open>Two neighbouring trades of the same type \<open>x\<close> somewhere in a trade list.\<close>

fun consecutive :: "SignalType \<Rightarrow> Trade list \<Rightarrow> bool" where
  "consecutive x (a # b # ts) = ((type a = x \<and> type b = x) \<or> consecutive x (b # ts))"
| "consecutive x _ = False"

text \<open>
  The loop invariant behind the alternation of sells: no two sells in a row so far, and
  nothing is held when the book is empty or its last trade is a sell.
\<close>

definition flat_after_sell :: "Sim \<Rightarrow> bool" where
  "flat_after_sell st =
     (\<not> consecutive SELL (Sim.trades st) \<and>
      ((Sim.trades st = [] \<or> type (last (Sim.trades st)) = SELL) \<longrightarrow> holdings st = Fin 0))"

text \<open>A number that is finite and not negative; one that is not negative, finite or not.\<close>

fun nonneg :: "jsnum \<Rightarrow> bool" where
  "nonneg (Fin a) = (0 \<le> a)"
| "nonneg _ = False"

fun nonneg_ext :: "jsnum \<Rightarrow> bool" where
  "nonneg_ext (Fin a) = (0 \<le> a)"
| "nonneg_ext PInf = True"
| "nonneg_ext _ = False"

text \<open>
  The win rate in the words of the specification: the buy paired with the sell at index
  \<open>i\<close> is the nearest BUY before it; a sell is profitable when its price exceeds that
  buy's price.
\<close>

definition nearest_buy :: "Trade list \<Rightarrow> nat \<Rightarrow> nat \<Rightarrow> bool" where
  "nearest_buy ts i j =
     (j < i \<and> type (ts ! j) = BUY \<and> (\<forall>k \<in> {j<..<i}. type (ts ! k) \<noteq> BUY))"

definition profitable_sell :: "Trade list \<Rightarrow> nat \<Rightarrow> bool" where
  "profitable_sell ts i =
     (type (ts ! i) = SELL \<and>
      (\<exists>j \<in> {..<i}. nearest_buy ts i j \<and> js_gt (price (ts ! i)) (price (ts ! j))))"

definition profitableSells :: "Trade list \<Rightarrow> nat" where
  "profitableSells ts = card {i \<in> {..<length ts}. profitable_sell ts i}"

definition totalSells :: "Trade list \<Rightarrow> nat" where
  "totalSells ts = card {i \<in> {..<length ts}. type (ts ! i) = SELL}"

text \<open>
  The loop invariant behind the pairing: every sell in the book has a buy before it, and
  nothing is held while the book has no buy.
\<close>

definition opened_before_sell :: "Sim \<Rightarrow> bool" where
  "opened_before_sell st =
     ((\<forall>i < length (Sim.trades st).
         type (Sim.trades st ! i) = SELL \<longrightarrow> (\<exists>j < i. type (Sim.trades st ! j) = BUY)) \<and>
      (BUY \<notin> type ` set (Sim.trades st) \<longrightarrow> holdings st = Fin 0))"

subsection \<open>Sample inputs\<close>

definition bar :: "string \<Rightarrow> real \<Rightarrow> MarketData" where
  "bar d c =
     \<lparr>MarketData.date = d, close = Fin c, open' = Fin c, high = Fin c, low = Fin c,
      volume = Fin 0\<rparr>"

definition sig :: "string \<Rightarrow> SignalType \<Rightarrow> AiSignal" where
  "sig d a =
     \<lparr>AiSignal.date = d, action = a, reason = ''r'', confidence = None,
      strategySource = None\<rparr>"

definition demo_config :: "Mode \<Rightarrow> StrategyConfig" where
  "demo_config m =
     \<lparr>mode = m, exchange = BINANCE, symbol = ''BTC'', initialCapital = Fin 1000,
      shortWindow = Fin 2, longWindow = Fin 3, rsiPeriod = Fin 14, rsiOverbought = Fin 70,
      rsiOversold = Fin 30, useRsiFilter = False\<rparr>"

section \<open>Rounding\<close>

lemma pow2_pos [simp]: "0 < pow2 e"
  by (simp add: pow2_def)

lemma pow2_nonneg [simp]: "0 \<le> pow2 e"
  by (simp add: pow2_def)

lemma pow2_neq0 [simp]: "pow2 e \<noteq> 0"
  by (simp add: pow2_def)

lemma pow2_not_le0 [simp]: "\<not> pow2 e \<le> 0"
  by (simp add: not_le)

lemma pow2_mono: "e \<le> e' \<Longrightarrow> pow2 e \<le> pow2 e'"
  unfolding pow2_def by (intro power_int_increasing) simp_all

lemma pow2_less_cancel: "pow2 e < pow2 e' \<Longrightarrow> e < e'"
  by (rule ccontr) (simp add: not_less pow2_mono not_le [symmetric])

lemma pow2_add: "pow2 (a + b) = pow2 a * pow2 b"
  by (simp add: pow2_def power_int_add)

lemma pow2_int: "0 \<le> e \<Longrightarrow> pow2 e = of_int (2 ^ nat e)"
  by (simp add: pow2_def power_int_nonneg_exp)

lemma expo_range: "lo < hi \<Longrightarrow> lo \<le> expo lo hi a \<and> expo lo hi a < hi"
proof (induction lo hi a rule: expo.induct)
  case (1 lo hi a)
  show ?case
  proof (cases "hi \<le> lo + 1")
    case True
    with "1.prems" show ?thesis by (simp add: expo.simps [of lo hi])
  next
    case False
    then have m: "lo < (lo + hi) div 2" "(lo + hi) div 2 < hi" by linarith+
    show ?thesis
    proof (cases "pow2 ((lo + hi) div 2) \<le> a")
      case True
      from "1.IH"(1) [OF False True m(2)] False True m show ?thesis
        by (simp add: expo.simps [of lo hi])
    next
      case ge: False
      from "1.IH"(2) [OF False ge m(1)] False ge m show ?thesis
        by (simp add: expo.simps [of lo hi])
    qed
  qed
qed

lemma expo_bounds:
  "lo < hi \<Longrightarrow> pow2 lo \<le> a \<Longrightarrow> a < pow2 hi \<Longrightarrow>
   pow2 (expo lo hi a) \<le> a \<and> a < pow2 (expo lo hi a + 1)"
proof (induction lo hi a rule: expo.induct)
  case (1 lo hi a)
  show ?case
  proof (cases "hi \<le> lo + 1")
    case True
    then have e: "expo lo hi a = lo" by (simp add: expo.simps [of lo hi])
    from True "1.prems" have "hi = lo + 1" by simp
    with "1.prems" show ?thesis unfolding e by simp
  next
    case False
    then have m: "lo < (lo + hi) div 2" "(lo + hi) div 2 < hi" by linarith+
    show ?thesis
    proof (cases "pow2 ((lo + hi) div 2) \<le> a")
      case True
      from "1.IH"(1) [OF False True m(2) True "1.prems"(3)] False True show ?thesis
        by (simp add: expo.simps [of lo hi])
    next
      case ge: False
      then have "a < pow2 ((lo + hi) div 2)" by simp
      from "1.IH"(2) [OF False ge m(1) "1.prems"(2) this] False ge show ?thesis
        by (simp add: expo.simps [of lo hi])
    qed
  qed
qed

lemma pow2_unique:
  assumes "pow2 e \<le> a" "a < pow2 (e + 1)" "pow2 e' \<le> a" "a < pow2 (e' + 1)"
  shows "e = e'"
proof -
  from assms(1,4) have "pow2 e < pow2 (e' + 1)" by simp
  then have 1: "e < e' + 1" by (rule pow2_less_cancel)
  from assms(3,2) have "pow2 e' < pow2 (e + 1)" by simp
  then have 2: "e' < e + 1" by (rule pow2_less_cancel)
  from 1 2 show ?thesis by simp
qed

lemma fexp_range: "- 1022 \<le> fexp a \<and> fexp a \<le> 1023"
  using expo_range [of "- 1022" 1024 a] by (simp add: fexp_def)

lemma fexp_normal:
  assumes "pow2 (- 1022) \<le> a" and "a < pow2 1024"
  shows "pow2 (fexp a) \<le> a \<and> a < pow2 (fexp a + 1)"
  using assms expo_bounds [of "- 1022" 1024 a] by (simp add: fexp_def)

lemma fexp_eq:
  assumes "pow2 e \<le> a" and "a < pow2 (e + 1)" and "- 1022 \<le> e" and "e \<le> 1023"
  shows "fexp a = e"
proof -
  from assms(3) have "pow2 (- 1022) \<le> pow2 e" by (rule pow2_mono)
  with assms(1) have lo: "pow2 (- 1022) \<le> a" by simp
  from assms(4) have "pow2 (e + 1) \<le> pow2 1024" by (intro pow2_mono) simp
  with assms(2) have hi: "a < pow2 1024" by simp
  from fexp_normal [OF lo hi] assms(1,2) show ?thesis
    using pow2_unique by blast
qed

lemma fexp_upper:
  assumes "a < pow2 k" and "- 1021 \<le> k"
  shows "fexp a < k"
proof (cases "a < pow2 (- 1022)")
  case True
  with assms(2) show ?thesis by (simp add: fexp_def)
next
  case False
  then have lo: "pow2 (- 1022) \<le> a" by simp
  show ?thesis
  proof (cases "a < pow2 1024")
    case True
    from fexp_normal [OF lo True] assms(1) have "pow2 (fexp a) < pow2 k" by simp
    then show ?thesis by (rule pow2_less_cancel)
  next
    case False
    with assms(1) have "pow2 1024 < pow2 k" by simp
    then have "1024 < k" by (rule pow2_less_cancel)
    with fexp_range [of a] show ?thesis by simp
  qed
qed

subsection \<open>Rounding to the nearest integer\<close>

lemma rne_int [simp]: "rne (of_int n) = n"
  by (simp add: rne_def)

lemma rne_0 [simp]: "rne 0 = 0"
  using rne_int [of 0] by simp

lemma rne_le: "q \<le> of_int n \<Longrightarrow> rne q \<le> n"
proof -
  assume q: "q \<le> of_int n"
  then have f: "\<lfloor>q\<rfloor> \<le> n" by (simp add: floor_le_iff)
  show ?thesis
  proof (cases "\<lfloor>q\<rfloor> = n")
    case True
    with q have "q = of_int n" by linarith
    then show ?thesis by simp
  next
    case False
    with f have "\<lfloor>q\<rfloor> + 1 \<le> n" by simp
    then show ?thesis by (simp add: rne_def Let_def)
  qed
qed

lemma rne_ge: "of_int n \<le> q \<Longrightarrow> n \<le> rne q"
proof -
  assume "of_int n \<le> q"
  then have "n \<le> \<lfloor>q\<rfloor>" by (simp add: le_floor_iff)
  then show ?thesis by (simp add: rne_def Let_def)
qed

lemma rne_err: "\<bar>of_int (rne q) - q\<bar> \<le> 1 / 2"
proof -
  have "of_int \<lfloor>q\<rfloor> \<le> q" "q < of_int \<lfloor>q\<rfloor> + 1" by linarith+
  then show ?thesis by (auto simp: rne_def Let_def)
qed

subsection \<open>Rounding to a double\<close>

lemma fl_disj: "fl x = PInf \<or> fl x = NInf \<or> (\<exists>y. fl x = Fin y)"
  by (simp add: fl_def overflow_def Let_def)

lemma fl_cases:
  obtains (PInf) "fl x = PInf" | (NInf) "fl x = NInf" | (Fin) y where "fl x = Fin y"
  using fl_disj [of x] by blast

lemma fl_not_NaN [simp]: "fl x \<noteq> NaN"
  by (auto simp: fl_def overflow_def Let_def)

lemma fexp_0: "fexp 0 = - 1022"
  by (simp add: fexp_def)

lemma fl_0 [simp]: "fl 0 = Fin 0"
  by (simp add: fl_def Let_def not_le)

lemma fl_nonneg:
  assumes "0 \<le> x"
  shows "fl x = PInf \<or> (\<exists>y \<ge> 0. fl x = Fin y)"
proof (cases "x = 0")
  case True
  then show ?thesis by simp
next
  case False
  with assms have pos: "0 < x" by simp
  from assms have "0 \<le> x / pow2 (fexp \<bar>x\<bar> - 52)" by simp
  then have "0 \<le> rne (x / pow2 (fexp \<bar>x\<bar> - 52))"
    using rne_ge [of 0] by simp
  then have "0 \<le> real_of_int (rne (x / pow2 (fexp \<bar>x\<bar> - 52))) * pow2 (fexp \<bar>x\<bar> - 52)"
    by simp
  with pos show ?thesis by (auto simp: fl_def overflow_def Let_def)
qed

lemma fl_nonpos:
  assumes "x \<le> 0"
  shows "fl x = NInf \<or> (\<exists>y \<le> 0. fl x = Fin y)"
proof -
  from assms have "x / pow2 (fexp \<bar>x\<bar> - 52) \<le> 0"
    by (intro divide_nonpos_pos) simp_all
  then have "rne (x / pow2 (fexp \<bar>x\<bar> - 52)) \<le> 0"
    using rne_le [of _ 0] by simp
  then have "real_of_int (rne (x / pow2 (fexp \<bar>x\<bar> - 52))) * pow2 (fexp \<bar>x\<bar> - 52) \<le> 0"
    by (simp add: mult_le_0_iff)
  with assms show ?thesis by (auto simp: fl_def overflow_def Let_def)
qed


lemma pow2_0 [simp]: "pow2 0 = 1"
  by (simp add: pow2_def)

lemma pow2_inverse: "pow2 k * pow2 (- k) = 1"
  using pow2_add [of k "- k"] by simp

lemma round_err:
  "\<bar>real_of_int (rne (x / pow2 k)) * pow2 k - x\<bar> \<le> pow2 k / 2"
proof -
  have "real_of_int (rne (x / pow2 k)) * pow2 k - x =
        (real_of_int (rne (x / pow2 k)) - x / pow2 k) * pow2 k"
    by (simp add: algebra_simps)
  then have "\<bar>real_of_int (rne (x / pow2 k)) * pow2 k - x\<bar> =
        \<bar>real_of_int (rne (x / pow2 k)) - x / pow2 k\<bar> * pow2 k"
    by (simp add: abs_mult)
  also have "\<dots> \<le> 1 / 2 * pow2 k"
    by (intro mult_right_mono rne_err) simp
  finally show ?thesis by simp
qed

lemma fl_Fin:
  assumes "\<bar>x\<bar> < pow2 1024"
    and "\<bar>real_of_int (rne (x / pow2 (fexp \<bar>x\<bar> - 52))) * pow2 (fexp \<bar>x\<bar> - 52)\<bar> < pow2 1024"
  shows "fl x = Fin (real_of_int (rne (x / pow2 (fexp \<bar>x\<bar> - 52))) * pow2 (fexp \<bar>x\<bar> - 52))"
  using assms by (simp add: fl_def Let_def not_le)

lemma fl_overflow: "pow2 1024 \<le> \<bar>x\<bar> \<Longrightarrow> fl x = overflow x"
  by (simp add: fl_def)

lemma fl_eval:
  assumes "pow2 e \<le> \<bar>x\<bar>" and "\<bar>x\<bar> < pow2 (e + 1)" and "- 1022 \<le> e" and "e \<le> 1023"
    and "r = real_of_int (rne (x / pow2 (e - 52))) * pow2 (e - 52)"
    and "\<bar>r\<bar> < pow2 1024"
  shows "fl x = Fin r"
proof -
  from fexp_eq [OF assms(1-4)] have e: "fexp \<bar>x\<bar> = e" .
  from assms(4) have "pow2 (e + 1) \<le> pow2 1024" by (intro pow2_mono) simp
  with assms(2) have "\<bar>x\<bar> < pow2 1024" by simp
  from fl_Fin [OF this] assms(5,6) e show ?thesis by simp
qed

lemma small_no_overflow:
  assumes "\<bar>x\<bar> < pow2 53" and "k \<le> 0"
  shows "\<bar>real_of_int (rne (x / pow2 k)) * pow2 k\<bar> < pow2 1024"
proof -
  from assms(2) have "pow2 k \<le> pow2 0" by (rule pow2_mono)
  then have u: "pow2 k \<le> 1" by simp
  have "\<bar>real_of_int (rne (x / pow2 k)) * pow2 k\<bar> \<le>
        \<bar>real_of_int (rne (x / pow2 k)) * pow2 k - x\<bar> + \<bar>x\<bar>"
    by linarith
  also have "\<dots> \<le> pow2 k / 2 + \<bar>x\<bar>" using round_err [of x k] by simp
  also have "\<dots> < 1 + pow2 53" using u assms(1) by simp
  also have "\<dots> \<le> pow2 53 + pow2 53"
    using pow2_mono [of 0 53] by simp
  also have "\<dots> = pow2 54" using pow2_add [of 53 1] by (simp add: pow2_def)
  also have "\<dots> \<le> pow2 1024" by (intro pow2_mono) simp
  finally show ?thesis .
qed

lemma int_on_grid:
  assumes "k \<le> 0"
  shows "real_of_int n / pow2 k = real_of_int (n * 2 ^ nat (- k))"
proof -
  from assms have "pow2 (- k) = real_of_int (2 ^ nat (- k))"
    by (intro pow2_int) simp
  moreover have "real_of_int n / pow2 k = real_of_int n * pow2 (- k)"
    using pow2_inverse [of k] by (simp add: field_simps)
  ultimately show ?thesis by simp
qed

lemma fexp_small:
  assumes "\<bar>x\<bar> < pow2 53"
  shows "fexp \<bar>x\<bar> - 52 \<le> 0"
  using fexp_upper [OF assms] by simp

lemma fl_le_int:
  assumes "x \<le> real_of_int n" and "\<bar>x\<bar> < pow2 53"
  shows "\<exists>y. fl x = Fin y \<and> y \<le> real_of_int n"
proof -
  define k where "k = fexp \<bar>x\<bar> - 52"
  from fexp_small [OF assms(2)] have k: "k \<le> 0" by (simp add: k_def)
  from assms(1) have "x / pow2 k \<le> real_of_int n / pow2 k"
    by (intro divide_right_mono) simp_all
  then have "x / pow2 k \<le> real_of_int (n * 2 ^ nat (- k))"
    by (simp only: int_on_grid [OF k])
  then have "rne (x / pow2 k) \<le> n * 2 ^ nat (- k)" by (rule rne_le)
  then have "real_of_int (rne (x / pow2 k)) \<le> real_of_int (n * 2 ^ nat (- k))"
    by (simp only: of_int_le_iff)
  then have "real_of_int (rne (x / pow2 k)) \<le> real_of_int n / pow2 k"
    by (simp only: int_on_grid [OF k])
  then have le: "real_of_int (rne (x / pow2 k)) * pow2 k \<le> real_of_int n"
    by (simp add: pos_le_divide_eq)
  from assms(2) have "\<bar>x\<bar> < pow2 1024"
    using pow2_mono [of 53 1024] by simp
  from fl_Fin [OF this] small_no_overflow [OF assms(2) k] le show ?thesis
    by (auto simp: k_def)
qed

lemma fl_ge_int:
  assumes "real_of_int n \<le> x" and "\<bar>x\<bar> < pow2 53"
  shows "\<exists>y. fl x = Fin y \<and> real_of_int n \<le> y"
proof -
  define k where "k = fexp \<bar>x\<bar> - 52"
  from fexp_small [OF assms(2)] have k: "k \<le> 0" by (simp add: k_def)
  from assms(1) have "real_of_int n / pow2 k \<le> x / pow2 k"
    by (intro divide_right_mono) simp_all
  then have "real_of_int (n * 2 ^ nat (- k)) \<le> x / pow2 k"
    by (simp only: int_on_grid [OF k])
  then have "n * 2 ^ nat (- k) \<le> rne (x / pow2 k)" by (rule rne_ge)
  then have "real_of_int (n * 2 ^ nat (- k)) \<le> real_of_int (rne (x / pow2 k))"
    by (simp only: of_int_le_iff)
  then have "real_of_int n / pow2 k \<le> real_of_int (rne (x / pow2 k))"
    by (simp only: int_on_grid [OF k])
  then have le: "real_of_int n \<le> real_of_int (rne (x / pow2 k)) * pow2 k"
    by (simp add: pos_divide_le_eq)
  from assms(2) have "\<bar>x\<bar> < pow2 1024"
    using pow2_mono [of 53 1024] by simp
  from fl_Fin [OF this] small_no_overflow [OF assms(2) k] le show ?thesis
    by (auto simp: k_def)
qed

lemma fl_int:
  assumes "\<bar>real_of_int n\<bar> < pow2 53"
  shows "fl (real_of_int n) = Fin (real_of_int n)"
proof -
  from fl_le_int [OF order_refl assms] obtain y where y: "fl (real_of_int n) = Fin y" "y \<le> real_of_int n"
    by blast
  from fl_ge_int [OF order_refl assms] obtain z where z: "fl (real_of_int n) = Fin z" "real_of_int n \<le> z"
    by blast
  from y z show ?thesis by simp
qed

lemma fl_ge_pow2:
  assumes "pow2 j \<le> x" and "- 1022 \<le> j"
  shows "fl x = PInf \<or> (\<exists>y \<ge> pow2 j. fl x = Fin y)"
proof (cases "pow2 1024 \<le> \<bar>x\<bar>")
  case True
  moreover from assms(1) have "0 < x" using pow2_pos [of j] by linarith
  ultimately show ?thesis by (simp add: fl_overflow overflow_def)
next
  case False
  from assms(1) have pos: "0 < x" using pow2_pos [of j] by linarith
  then have ax: "\<bar>x\<bar> = x" by simp
  from False ax have hi: "x < pow2 1024" by simp
  from assms have lo: "pow2 (- 1022) \<le> x"
    using pow2_mono [of "- 1022" j] by simp
  define e where "e = fexp x"
  from fexp_normal [OF lo hi] have e: "pow2 e \<le> x" "x < pow2 (e + 1)" by (simp_all add: e_def)
  from assms(1) e(2) have "pow2 j < pow2 (e + 1)" by simp
  then have je: "j \<le> e" using pow2_less_cancel by fastforce
  have "pow2 e / pow2 (e - 52) = pow2 52"
    using pow2_add [of "e - 52" 52] by (simp add: field_simps)
  also have "\<dots> = real_of_int (2 ^ 52)" using pow2_int [of 52] by simp
  finally have grid: "pow2 e / pow2 (e - 52) = real_of_int (2 ^ 52)" .
  from e(1) have "pow2 e / pow2 (e - 52) \<le> x / pow2 (e - 52)"
    by (intro divide_right_mono) simp_all
  then have "real_of_int (2 ^ 52) \<le> x / pow2 (e - 52)" by (simp only: grid)
  then have "2 ^ 52 \<le> rne (x / pow2 (e - 52))" by (rule rne_ge)
  then have "real_of_int (2 ^ 52) \<le> real_of_int (rne (x / pow2 (e - 52)))"
    by (simp only: of_int_le_iff)
  then have "pow2 e / pow2 (e - 52) \<le> real_of_int (rne (x / pow2 (e - 52)))"
    by (simp only: grid)
  then have "pow2 e \<le> real_of_int (rne (x / pow2 (e - 52))) * pow2 (e - 52)"
    by (simp add: pos_divide_le_eq)
  with pow2_mono [OF je] have r: "pow2 j \<le> real_of_int (rne (x / pow2 (e - 52))) * pow2 (e - 52)"
    by simp
  from pos r show ?thesis
    by (auto simp: fl_def overflow_def Let_def e_def ax)
qed

lemma fl_exact:
  assumes "x = real_of_int m * pow2 k" and "\<bar>m\<bar> < 2 ^ 53" and "- 1074 \<le> k"
    and "\<bar>x\<bar> < pow2 1024"
  shows "fl x = Fin x"
proof -
  define e where "e = fexp \<bar>x\<bar>"
  have "\<bar>x\<bar> = real_of_int \<bar>m\<bar> * pow2 k" by (simp add: assms(1) abs_mult)
  also have "\<dots> < real_of_int (2 ^ 53) * pow2 k"
    using assms(2) by (intro mult_strict_right_mono) simp_all
  also have "\<dots> = pow2 53 * pow2 k" using pow2_int [of 53] by simp
  also have "\<dots> = pow2 (k + 53)" using pow2_add [of 53 k] by (simp add: add.commute)
  finally have "\<bar>x\<bar> < pow2 (k + 53)" .
  from fexp_upper [OF this] assms(3) have "e < k + 53" by (simp add: e_def)
  then have j: "e - 52 - k \<le> 0" by simp
  have "x / pow2 (e - 52) = real_of_int m / pow2 (e - 52 - k)"
    using pow2_add [of "e - 52 - k" k] by (simp add: assms(1) field_simps)
  also have "\<dots> = real_of_int (m * 2 ^ nat (- (e - 52 - k)))"
    by (rule int_on_grid [OF j])
  finally have q: "x / pow2 (e - 52) = real_of_int (m * 2 ^ nat (- (e - 52 - k)))" .
  have "real_of_int (rne (x / pow2 (e - 52))) * pow2 (e - 52) = x / pow2 (e - 52) * pow2 (e - 52)"
    by (simp only: q rne_int)
  then have r: "real_of_int (rne (x / pow2 (e - 52))) * pow2 (e - 52) = x" by simp
  from fl_Fin [OF assms(4)] r assms(4) show ?thesis by (simp add: e_def)
qed

lemma pow2_53: "pow2 53 = 9007199254740992"
  by (simp add: pow2_def)

lemma fl_numeral:
  "numeral w < (9007199254740992::real) \<Longrightarrow> fl (numeral w) = Fin (numeral w)"
  using fl_int [of "numeral w"] by (simp add: pow2_53)

lemma fl_neg_numeral:
  "numeral w < (9007199254740992::real) \<Longrightarrow> fl (- numeral w) = Fin (- numeral w)"
  using fl_int [of "- numeral w"] by (simp add: pow2_53)

lemma fl_1 [simp]: "fl 1 = Fin 1"
  using fl_int [of 1] by (simp add: pow2_53)

lemma fl_nat:
  assumes "real n < 9007199254740992"
  shows "fl (real n) = Fin (real n)"
  using fl_int [of "int n"] assms by (simp add: pow2_53)

lemma fl_unit:
  assumes "0 \<le> x" and "x \<le> real_of_int n" and "\<bar>x\<bar> < 9007199254740992"
  shows "\<exists>y. fl x = Fin y \<and> 0 \<le> y \<and> y \<le> real_of_int n"
proof -
  from fl_le_int [OF assms(2)] assms(3) obtain y where y: "fl x = Fin y" "y \<le> real_of_int n"
    by (auto simp: pow2_53)
  from fl_nonneg [OF assms(1)] y(1) have "0 \<le> y" by auto
  with y show ?thesis by blast
qed

subsection \<open>Signs of the results\<close>

lemma nonneg_ext_cases:
  assumes "nonneg_ext x"
  obtains (Fin) a where "x = Fin a" and "0 \<le> a" | (PInf) "x = PInf"
  using assms by (cases x) simp_all

lemma nonneg_cases:
  assumes "nonneg x"
  obtains a where "x = Fin a" and "0 \<le> a"
  using assms by (cases x) simp_all

lemma nonneg_ext_fl: "0 \<le> x \<Longrightarrow> nonneg_ext (fl x)"
  using fl_nonneg [of x] by auto

lemma nonneg_ext_add: "nonneg_ext a \<Longrightarrow> nonneg_ext b \<Longrightarrow> nonneg_ext (js_add a b)"
  by (cases a; cases b) (simp_all add: nonneg_ext_fl)

lemma nonneg_ext_mul:
  "nonneg_ext a \<Longrightarrow> nonneg_ext b \<Longrightarrow> nonneg_ext (js_mul a b) \<or> js_mul a b = NaN"
  by (cases a; cases b) (auto simp: nonneg_ext_fl)

lemma nonneg_ext_ge: "nonneg_ext x \<Longrightarrow> js_ge x (Fin 0)"
  by (cases x) (simp_all add: js_ge_def js_le_def)

lemma js_gt_0_neq: "js_gt x (Fin 0) \<Longrightarrow> x \<noteq> Fin 0"
  by (auto simp: js_gt_def)

section \<open>Basic facts about the loop\<close>

lemma error_is_TypeError: "(e::error) = TypeError"
  by (cases e) simp

lemma simulate_Suc:
  "simulate data config s l r m (Suc k) =
     step data config s l r m k (simulate data config s l r m k)"
  by (simp add: simulate_def)

lemma simulate_0: "simulate data config s l r m 0 = initial config"
  by (simp add: simulate_def)

lemma executeTrade_eq:
  "executeTrade st sg rsn px dt =
     (if sg = BUY \<and> js_gt (cash st) px \<and> js_gt (buy_amount st px) (Fin 0) \<and>
         js_le (js_mul (buy_amount st px) px) (cash st)
      then bought st rsn px dt
      else if sg = SELL \<and> js_gt (holdings st) (Fin 0) then sold st rsn px dt
      else st)"
  by (simp add: executeTrade_def buy_amount_def bought_def sold_def Let_def)

lemma executeTrade_cases:
  obtains (Noop) "executeTrade st sg rsn px dt = st"
  | (Buy) "sg = BUY" "js_gt (cash st) px" "js_gt (buy_amount st px) (Fin 0)"
      "js_le (js_mul (buy_amount st px) px) (cash st)"
      "executeTrade st sg rsn px dt = bought st rsn px dt"
  | (Sell) "sg = SELL" "js_gt (holdings st) (Fin 0)"
      "executeTrade st sg rsn px dt = sold st rsn px dt"
  using executeTrade_eq [of st sg rsn px dt] by (auto split: if_splits)

lemma record_equity_fields [simp]:
  "cash (record_equity st px dt) = cash st"
  "holdings (record_equity st px dt) = holdings st"
  "Sim.trades (record_equity st px dt) = Sim.trades st"
  by (simp_all add: record_equity_def Let_def)

lemma step_cases:
  obtains (Skip) "mode config = ALGO"
      "js_lt (num i) (js_max (longWindow config) (rsiPeriod config))"
      "step data config s l r m i st =
         st\<lparr>Sim.history := Sim.history st @
              [\<lparr>HistoryPoint.date = MarketData.date (data ! i), balance = cash st\<rparr>]\<rparr>"
  | (Trade) sg rsn where
      "\<not> (mode config = ALGO \<and> js_lt (num i) (js_max (longWindow config) (rsiPeriod config)))"
      "decide config s l r m (MarketData.date (data ! i)) i = (sg, rsn)"
      "step data config s l r m i st =
         record_equity (executeTrade st sg rsn (close (data ! i)) (MarketData.date (data ! i)))
           (close (data ! i)) (MarketData.date (data ! i))"
proof (cases "mode config = ALGO \<and> js_lt (num i) (js_max (longWindow config) (rsiPeriod config))")
  case True
  then have "step data config s l r m i st =
         st\<lparr>Sim.history := Sim.history st @
              [\<lparr>HistoryPoint.date = MarketData.date (data ! i), balance = cash st\<rparr>]\<rparr>"
    by (simp add: step_def)
  with True show ?thesis by (intro Skip) simp_all
next
  case False
  obtain sg rsn where d: "decide config s l r m (MarketData.date (data ! i)) i = (sg, rsn)"
    by (cases "decide config s l r m (MarketData.date (data ! i)) i")
  have "step data config s l r m i st =
         record_equity (executeTrade st sg rsn (close (data ! i)) (MarketData.date (data ! i)))
           (close (data ! i)) (MarketData.date (data ! i))"
    by (simp add: step_def Let_def if_not_P [OF False] d)
  with False d show ?thesis by (rule Trade)
qed

lemma runBacktest_Inr:
  assumes "runBacktest data config aiSignals = Inr res"
  obtains rsi where "calculateRSI data (rsiPeriod config) = Inr rsi"
    and "data \<noteq> []"
    and "BacktestResult.history res =
           Sim.history (simulate data config (calculateSMA data (shortWindow config))
             (calculateSMA data (longWindow config)) rsi (aiSignalMap config aiSignals)
             (length data))"
    and "BacktestResult.trades res =
           Sim.trades (simulate data config (calculateSMA data (shortWindow config))
             (calculateSMA data (longWindow config)) rsi (aiSignalMap config aiSignals)
             (length data))"
    and "winRate res = calcWinRate (BacktestResult.trades res)"
  using assms
  by (auto simp: runBacktest_def report_def Let_def close_at_def split: sum.splits if_splits)

text \<open>In AI mode the decisions do not read the indicator arrays.\<close>

lemma step_AI:
  "mode config = AI \<Longrightarrow>
   step data config s l r m i st = step data config [] [] [] m i st"
  by (simp add: step_def decide_def)

lemma simulate_AI:
  assumes "mode config = AI"
  shows "simulate data config s l r m k = simulate data config [] [] [] m k"
  by (induction k) (simp_all add: simulate_0 simulate_Suc step_AI [OF assms, of data s l r])

lemma calculateRSI_short:
  "js_le (num (length data)) period \<Longrightarrow>
   calculateRSI data period = Inr (replicate (length data) NaN)"
  by (simp add: calculateRSI_def)

lemma runBacktest_AI:
  assumes "mode config = AI" and "calculateRSI data (rsiPeriod config) = Inr rsi"
    and "data \<noteq> []"
  shows "runBacktest data config aiSignals =
           Inr (report config
                  (simulate data config [] [] [] (aiSignalMap config aiSignals) (length data))
                  (close (last data)))"
proof -
  from assms(3) have "close_at data (int (length data) - 1) = Inr (close (last data))"
    by (simp add: close_at_def last_conv_nth nat_diff_distrib')
  with assms(1,2) show ?thesis
    by (simp add: runBacktest_def Let_def
          simulate_AI [OF assms(1), of data "calculateSMA data (shortWindow config)"])
qed

section \<open>A sample run\<close>

text \<open>Rounding facts for the sample runs below.\<close>

lemma fl_99_100: "fl (99 / 100) = Fin (4458563631096791 / 4503599627370496)"
  by (rule fl_eval [where e = "- 1"]) (simp_all add: pow2_def rne_def)

lemma fl_run_99: "fl (111464090777419775 / 1125899906842624) = Fin 99"
  by (rule fl_eval [where e = "6"]) (simp_all add: pow2_def rne_def)

lemma fl_run_990: "fl (557320453887098875 / 562949953421312) = Fin 990"
  by (rule fl_eval [where e = "9"]) (simp_all add: pow2_def rne_def)

lemmas run_defs = report_def simulate_Suc simulate_0 step_def decide_def executeTrade_def
  record_equity_def aiSignalMap_def initial_def calcWinRate_def profitable_def
  bar_def sig_def demo_config_def reason_or_def js_gt_def js_le_def js_sub_def Let_def num_def

lemmas run_facts = fl_99_100 fl_run_99 fl_run_990 fl_numeral fl_neg_numeral

text \<open>
  With 1000 of capital, closes 1, 2, 3 and the AI signals BUY, SELL, SELL: the BUY takes
  990 units, the first SELL closes the position at 2, the second SELL finds nothing to
  sell.
\<close>

lemma sample_run:
  "runBacktest [bar ''d1'' 1, bar ''d2'' 2, bar ''d3'' 3] (demo_config AI)
     (Some [sig ''d1'' BUY, sig ''d2'' SELL, sig ''d3'' SELL]) =
   Inr \<lparr>BacktestResult.trades =
          [\<lparr>Trade.date = ''d1'', type = BUY, price = Fin 1, amount = Fin 990,
            balanceAfter = Fin 1000, reason = ''r''\<rparr>,
           \<lparr>Trade.date = ''d2'', type = SELL, price = Fin 2, amount = Fin 990,
            balanceAfter = Fin 1990, reason = ''r''\<rparr>],
        finalBalance = Fin 1990, totalReturn = Fin 99, winRate = Fin 100,
        maxDrawdown = Fin 0,
        history =
          [\<lparr>HistoryPoint.date = ''d1'', balance = Fin 1000\<rparr>,
           \<lparr>HistoryPoint.date = ''d2'', balance = Fin 1990\<rparr>,
           \<lparr>HistoryPoint.date = ''d3'', balance = Fin 1990\<rparr>]\<rparr>"
proof -
  have rsi: "calculateRSI [bar ''d1'' 1, bar ''d2'' 2, bar ''d3'' 3]
               (rsiPeriod (demo_config AI)) =
             Inr (replicate (length [bar ''d1'' 1, bar ''d2'' 2, bar ''d3'' 3]) NaN)"
    by (rule calculateRSI_short) (simp add: demo_config_def js_le_def num_def)
  have ai: "mode (demo_config AI) = AI" by (simp add: demo_config_def)
  show ?thesis
    unfolding runBacktest_AI [OF ai rsi list.simps(3)]
    by (simp add: run_defs run_facts)
qed

section \<open>The empty series\<close>

text \<open>
  Claim C2. On the empty series \<open>runBacktest\<close> returns no result for any configuration
  and any signals: it fails with the engine's input error, the TypeError raised when the
  last close is read for the final balance (or, for some periods, already in
  \<open>calculateRSI\<close>).
\<close>

theorem empty_series_fails: "runBacktest [] config aiSignals = Inl TypeError"
proof (cases "calculateRSI [] (rsiPeriod config)")
  case (Inl e)
  then show ?thesis by (simp add: runBacktest_def error_is_TypeError [of e])
next
  case (Inr rsi)
  then show ?thesis by (simp add: runBacktest_def close_at_def)
qed

section \<open>The equity history\<close>

lemma history_executeTrade: "Sim.history (executeTrade st sg rsn px dt) = Sim.history st"
  by (simp add: executeTrade_def Let_def)

lemma history_step:
  "map HistoryPoint.date (Sim.history (step data config s l r m i st)) =
     map HistoryPoint.date (Sim.history st) @ [MarketData.date (data ! i)]"
  by (simp add: step_def record_equity_def history_executeTrade Let_def split: prod.splits)

lemma history_simulate:
  "map HistoryPoint.date (Sim.history (simulate data config s l r m k)) =
     map (\<lambda>i. MarketData.date (data ! i)) [0..<k]"
proof (induction k)
  case 0
  show ?case by (simp add: simulate_0 initial_def)
next
  case (Suc k)
  then show ?case by (simp add: simulate_Suc history_step)
qed

text \<open>
  Claim C10. Whenever \<open>runBacktest\<close> returns a result, its history has one entry per
  bar of the series, and the entry at position \<open>i\<close> carries the date of the \<open>i\<close>-th bar.
\<close>

theorem history_aligned:
  assumes "runBacktest data config aiSignals = Inr res"
  shows "length (BacktestResult.history res) = length data \<and>
         (\<forall>i < length data.
            HistoryPoint.date (BacktestResult.history res ! i) = MarketData.date (data ! i))"
proof -
  from assms obtain rsi where
    h: "BacktestResult.history res =
           Sim.history (simulate data config (calculateSMA data (shortWindow config))
             (calculateSMA data (longWindow config)) rsi (aiSignalMap config aiSignals)
             (length data))"
    by (rule runBacktest_Inr)
  have m: "map HistoryPoint.date (BacktestResult.history res) =
        map (\<lambda>i. MarketData.date (data ! i)) [0..<length data]"
    unfolding h by (rule history_simulate)
  have len: "length (BacktestResult.history res) = length data"
    using arg_cong [OF m, of length] by simp
  have "HistoryPoint.date (BacktestResult.history res ! i) = MarketData.date (data ! i)"
    if "i < length data" for i
  proof -
    have "map HistoryPoint.date (BacktestResult.history res) ! i =
          map (\<lambda>i. MarketData.date (data ! i)) [0..<length data] ! i"
      by (simp only: m)
    with that len show ?thesis by simp
  qed
  with len show ?thesis by blast
qed

theorem history_aligned_witness:
  "runBacktest [bar ''d1'' 1, bar ''d2'' 2, bar ''d3'' 3] (demo_config AI)
     (Some [sig ''d1'' BUY, sig ''d2'' SELL, sig ''d3'' SELL]) =
   Inr \<lparr>BacktestResult.trades =
          [\<lparr>Trade.date = ''d1'', type = BUY, price = Fin 1, amount = Fin 990,
            balanceAfter = Fin 1000, reason = ''r''\<rparr>,
           \<lparr>Trade.date = ''d2'', type = SELL, price = Fin 2, amount = Fin 990,
            balanceAfter = Fin 1990, reason = ''r''\<rparr>],
        finalBalance = Fin 1990, totalReturn = Fin 99, winRate = Fin 100,
        maxDrawdown = Fin 0,
        history =
          [\<lparr>HistoryPoint.date = ''d1'', balance = Fin 1000\<rparr>,
           \<lparr>HistoryPoint.date = ''d2'', balance = Fin 1990\<rparr>,
           \<lparr>HistoryPoint.date = ''d3'', balance = Fin 1990\<rparr>]\<rparr> \<and>
   length [\<lparr>HistoryPoint.date = ''d1'', balance = Fin 1000\<rparr>,
           \<lparr>HistoryPoint.date = ''d2'', balance = Fin 1990\<rparr>,
           \<lparr>HistoryPoint.date = ''d3'', balance = Fin 1990\<rparr>] =
     length [bar ''d1'' 1, bar ''d2'' 2, bar ''d3'' 3] \<and>
   map HistoryPoint.date
     [\<lparr>HistoryPoint.date = ''d1'', balance = Fin 1000\<rparr>,
      \<lparr>HistoryPoint.date = ''d2'', balance = Fin 1990\<rparr>,
      \<lparr>HistoryPoint.date = ''d3'', balance = Fin 1990\<rparr>] =
     map MarketData.date [bar ''d1'' 1, bar ''d2'' 2, bar ''d3'' 3]"
  using history_aligned [OF sample_run] sample_run by (simp add: bar_def)

section \<open>Alternation of the trades\<close>

lemma consecutive_snoc:
  "consecutive x (ts @ [t]) =
     (consecutive x ts \<or> (ts \<noteq> [] \<and> type (last ts) = x \<and> type t = x))"
  by (induction x ts rule: consecutive.induct) auto

lemma flat_after_sell_executeTrade:
  assumes "flat_after_sell st"
  shows "flat_after_sell (executeTrade st sg rsn px dt)"
proof (cases rule: executeTrade_cases [where st = st and sg = sg and rsn = rsn and px = px and dt = dt])
  case Noop
  with assms show ?thesis by simp
next
  case Buy
  with assms show ?thesis by (simp add: flat_after_sell_def consecutive_snoc bought_def)
next
  case Sell
  from Sell(2) have "holdings st \<noteq> Fin 0" by (auto simp: js_gt_def)
  with assms Sell show ?thesis by (auto simp: flat_after_sell_def consecutive_snoc sold_def)
qed

lemma flat_after_sell_step:
  assumes "flat_after_sell st"
  shows "flat_after_sell (step data config s l r m i st)"
proof (cases rule: step_cases [where config = config and i = i and data = data and s = s
                                 and l = l and r = r and m = m and st = st])
  case Skip
  with assms show ?thesis by (simp add: flat_after_sell_def)
next
  case (Trade sg rsn)
  with flat_after_sell_executeTrade [OF assms] show ?thesis
    by (simp add: flat_after_sell_def)
qed

lemma flat_after_sell_simulate: "flat_after_sell (simulate data config s l r m k)"
proof (induction k)
  case 0
  show ?case by (simp add: simulate_0 initial_def flat_after_sell_def)
next
  case (Suc k)
  then show ?case by (simp add: simulate_Suc flat_after_sell_step)
qed

lemma fl_db_1: "fl (22292818155483955 / 2251799813685248) = Fin (5573204538870989 / 562949953421312)"
  by (rule fl_eval [where e = "3"]) (simp_all add: pow2_def rne_def)

lemma fl_db_2: "fl (5573204538870989 / 562949953421312) = Fin (5573204538870989 / 562949953421312)"
  by (rule fl_eval [where e = "3"]) (simp_all add: pow2_def rne_def)

lemma fl_db_3: "fl (56294995342131 / 562949953421312) = Fin (56294995342131 / 562949953421312)"
  by (rule fl_eval [where e = "- 4"]) (simp_all add: pow2_def rne_def)

lemma fl_db_4: "fl (8795213412905779 / 8796093022208) = Fin (8795213412905779 / 8796093022208)"
  by (rule fl_eval [where e = "9"]) (simp_all add: pow2_def rne_def)

lemma fl_db_5: "fl (562893658425969869 / 562949953421312) = Fin (8795213412905779 / 8796093022208)"
  by (rule fl_eval [where e = "9"]) (simp_all add: pow2_def rne_def)

lemma fl_db_6: "fl (562949953421311987 / 562949953421312) = Fin 1000"
  by (rule fl_eval [where e = "9"]) (simp_all add: pow2_def rne_def)

text \<open>
  Claim C1, as stated, fails: a BUY decision while a position is held is not a no-op. The
  guard of a BUY is \<open>cash > price\<close>, not "no position". With 1000 of capital, a price of
  1 and BUY signals on two successive days, the first BUY leaves 10 of cash, which still
  exceeds the price, and the trade list is BUY, BUY.
\<close>

theorem double_buy_counterexample:
  "runBacktest [bar ''d1'' 1, bar ''d2'' 1] (demo_config AI)
     (Some [sig ''d1'' BUY, sig ''d2'' BUY]) =
   Inr \<lparr>BacktestResult.trades =
          [\<lparr>Trade.date = ''d1'', type = BUY, price = Fin 1, amount = Fin 990,
            balanceAfter = Fin 1000, reason = ''r''\<rparr>,
           \<lparr>Trade.date = ''d2'', type = BUY, price = Fin 1,
            amount = Fin (5573204538870989 / 562949953421312),
            balanceAfter = Fin 1000, reason = ''r''\<rparr>],
        finalBalance = Fin 1000, totalReturn = Fin 0, winRate = Fin 0,
        maxDrawdown = Fin 0,
        history =
          [\<lparr>HistoryPoint.date = ''d1'', balance = Fin 1000\<rparr>,
           \<lparr>HistoryPoint.date = ''d2'', balance = Fin 1000\<rparr>]\<rparr> \<and>
   consecutive BUY
     [\<lparr>Trade.date = ''d1'', type = BUY, price = Fin 1, amount = Fin 990,
       balanceAfter = Fin 1000, reason = ''r''\<rparr>,
      \<lparr>Trade.date = ''d2'', type = BUY, price = Fin 1,
       amount = Fin (5573204538870989 / 562949953421312),
       balanceAfter = Fin 1000, reason = ''r''\<rparr>]"
proof -
  have rsi: "calculateRSI [bar ''d1'' 1, bar ''d2'' 1] (rsiPeriod (demo_config AI)) =
             Inr (replicate (length [bar ''d1'' 1, bar ''d2'' 1]) NaN)"
    by (rule calculateRSI_short) (simp add: demo_config_def js_le_def num_def)
  have ai: "mode (demo_config AI) = AI" by (simp add: demo_config_def)
  show ?thesis
    unfolding runBacktest_AI [OF ai rsi list.simps(3)]
    by (simp add: run_defs run_facts fl_db_1 fl_db_2 fl_db_3 fl_db_4 fl_db_5 fl_db_6)
qed

text \<open>
  Claim C1, amended. The trade list of every result of \<open>runBacktest\<close> never contains two
  consecutive SELL trades, and a SELL decision while nothing is held is a no-op: the state,
  and with it the trade list, is unchanged. Nothing of the kind holds for BUY.
\<close>

theorem no_consecutive_sells:
  "(runBacktest data config aiSignals = Inr res \<longrightarrow>
      \<not> consecutive SELL (BacktestResult.trades res)) \<and>
   (holdings st = Fin 0 \<longrightarrow> executeTrade st SELL rsn px dt = st)"
proof (intro conjI impI)
  assume run: "runBacktest data config aiSignals = Inr res"
  then obtain rsi where
    "BacktestResult.trades res =
       Sim.trades (simulate data config (calculateSMA data (shortWindow config))
         (calculateSMA data (longWindow config)) rsi (aiSignalMap config aiSignals)
         (length data))"
    by (rule runBacktest_Inr)
  with flat_after_sell_simulate
         [of data config "calculateSMA data (shortWindow config)"
            "calculateSMA data (longWindow config)" rsi "aiSignalMap config aiSignals"
            "length data"]
  show "\<not> consecutive SELL (BacktestResult.trades res)"
    by (simp add: flat_after_sell_def)
next
  assume "holdings st = Fin 0"
  then show "executeTrade st SELL rsn px dt = st"
    by (simp add: executeTrade_eq js_gt_def)
qed

theorem no_consecutive_sells_witness:
  "runBacktest [bar ''d1'' 1, bar ''d2'' 2, bar ''d3'' 3] (demo_config AI)
     (Some [sig ''d1'' BUY, sig ''d2'' SELL, sig ''d3'' SELL]) =
   Inr \<lparr>BacktestResult.trades =
          [\<lparr>Trade.date = ''d1'', type = BUY, price = Fin 1, amount = Fin 990,
            balanceAfter = Fin 1000, reason = ''r''\<rparr>,
           \<lparr>Trade.date = ''d2'', type = SELL, price = Fin 2, amount = Fin 990,
            balanceAfter = Fin 1990, reason = ''r''\<rparr>],
        finalBalance = Fin 1990, totalReturn = Fin 99, winRate = Fin 100,
        maxDrawdown = Fin 0,
        history =
          [\<lparr>HistoryPoint.date = ''d1'', balance = Fin 1000\<rparr>,
           \<lparr>HistoryPoint.date = ''d2'', balance = Fin 1990\<rparr>,
           \<lparr>HistoryPoint.date = ''d3'', balance = Fin 1990\<rparr>]\<rparr> \<and>
   \<not> consecutive SELL
     [\<lparr>Trade.date = ''d1'', type = BUY, price = Fin 1, amount = Fin 990,
       balanceAfter = Fin 1000, reason = ''r''\<rparr>,
      \<lparr>Trade.date = ''d2'', type = SELL, price = Fin 2, amount = Fin 990,
       balanceAfter = Fin 1990, reason = ''r''\<rparr>] \<and>
   holdings (initial (demo_config AI)) = Fin 0 \<and>
   executeTrade (initial (demo_config AI)) SELL ''r'' (Fin 3) ''d3'' = initial (demo_config AI)"
proof -
  have flat: "holdings (initial (demo_config AI)) = Fin 0"
    by (simp add: initial_def)
  from no_consecutive_sells
         [of "[bar ''d1'' 1, bar ''d2'' 2, bar ''d3'' 3]" "demo_config AI"
            "Some [sig ''d1'' BUY, sig ''d2'' SELL, sig ''d3'' SELL]" _
            "initial (demo_config AI)" "''r''" "Fin 3" "''d3''"]
       sample_run flat
  show ?thesis by simp
qed

section \<open>The warm-up period\<close>

lemma js_lt_num_mono:
  assumes "js_lt (num i) x" and "j \<le> i"
  shows "js_lt (num j) x"
  using assms by (cases x) (simp_all add: num_def)

lemma warmup_state:
  assumes "mode config = ALGO"
    and "k = 0 \<or> js_lt (num (k - 1)) (js_max (longWindow config) (rsiPeriod config))"
  shows "simulate data config s l r m k =
           (initial config)\<lparr>Sim.history :=
              map (\<lambda>i. \<lparr>HistoryPoint.date = MarketData.date (data ! i),
                         balance = initialCapital config\<rparr>) [0..<k]\<rparr>"
  using assms(2)
proof (induction k)
  case 0
  show ?case by (simp add: simulate_0 initial_def)
next
  case (Suc k)
  from Suc.prems have lt: "js_lt (num k) (js_max (longWindow config) (rsiPeriod config))"
    by simp
  then have "k = 0 \<or> js_lt (num (k - 1)) (js_max (longWindow config) (rsiPeriod config))"
    by (auto intro: js_lt_num_mono)
  with Suc.IH have
    "simulate data config s l r m k =
           (initial config)\<lparr>Sim.history :=
              map (\<lambda>i. \<lparr>HistoryPoint.date = MarketData.date (data ! i),
                         balance = initialCapital config\<rparr>) [0..<k]\<rparr>"
    by simp
  with assms(1) lt show ?case
    by (simp add: simulate_Suc step_def initial_def)
qed

text \<open>
  Claim C8. In ALGO mode, at every index \<open>i\<close> of the series below
  \<open>max(longWindow, rsiPeriod)\<close> the iteration records no trade and appends the history
  entry dated as the bar with the current cash as balance; nothing is held before or
  after it, and the cash is untouched.
\<close>

theorem warmup_hold:
  assumes "mode config = ALGO"
    and "js_lt (num i) (js_max (longWindow config) (rsiPeriod config))"
    and "i < length data"
  shows "Sim.trades (simulate data config s l r m (Suc i)) =
           Sim.trades (simulate data config s l r m i) \<and>
         Sim.history (simulate data config s l r m (Suc i)) =
           Sim.history (simulate data config s l r m i) @
             [\<lparr>HistoryPoint.date = MarketData.date (data ! i),
               balance = cash (simulate data config s l r m i)\<rparr>] \<and>
         holdings (simulate data config s l r m i) = Fin 0 \<and>
         holdings (simulate data config s l r m (Suc i)) = Fin 0 \<and>
         cash (simulate data config s l r m (Suc i)) = cash (simulate data config s l r m i)"
proof -
  from assms(2) have
    le: "i = 0 \<or> js_lt (num (i - 1)) (js_max (longWindow config) (rsiPeriod config))"
    by (auto intro: js_lt_num_mono)
  have before: "holdings (simulate data config s l r m i) = Fin 0"
    by (simp add: warmup_state [OF assms(1) le] initial_def)
  from assms(1,2) have
    "simulate data config s l r m (Suc i) =
       (simulate data config s l r m i)\<lparr>Sim.history :=
          Sim.history (simulate data config s l r m i) @
            [\<lparr>HistoryPoint.date = MarketData.date (data ! i),
              balance = cash (simulate data config s l r m i)\<rparr>]\<rparr>"
    by (simp add: simulate_Suc step_def)
  with before show ?thesis by simp
qed

theorem warmup_hold_witness:
  "mode (demo_config ALGO) = ALGO \<and>
   js_lt (num 1) (js_max (longWindow (demo_config ALGO)) (rsiPeriod (demo_config ALGO))) \<and>
   1 < length [bar ''d1'' 5, bar ''d2'' 6, bar ''d3'' 7, bar ''d4'' 8] \<and>
   Sim.trades (simulate [bar ''d1'' 5, bar ''d2'' 6, bar ''d3'' 7, bar ''d4'' 8]
                 (demo_config ALGO) [] [] [] Map.empty (Suc 1)) =
     Sim.trades (simulate [bar ''d1'' 5, bar ''d2'' 6, bar ''d3'' 7, bar ''d4'' 8]
                   (demo_config ALGO) [] [] [] Map.empty 1) \<and>
   Sim.history (simulate [bar ''d1'' 5, bar ''d2'' 6, bar ''d3'' 7, bar ''d4'' 8]
                  (demo_config ALGO) [] [] [] Map.empty (Suc 1)) =
     Sim.history (simulate [bar ''d1'' 5, bar ''d2'' 6, bar ''d3'' 7, bar ''d4'' 8]
                    (demo_config ALGO) [] [] [] Map.empty 1) @
       [\<lparr>HistoryPoint.date = ''d2'', balance = Fin 1000\<rparr>]"
proof -
  have a: "mode (demo_config ALGO) = ALGO"
    by (simp add: demo_config_def)
  have b: "js_lt (num 1) (js_max (longWindow (demo_config ALGO)) (rsiPeriod (demo_config ALGO)))"
    by (simp add: demo_config_def js_max_def num_def)
  have c: "1 < length [bar ''d1'' 5, bar ''d2'' 6, bar ''d3'' 7, bar ''d4'' 8]"
    by simp
  have d: "cash (simulate [bar ''d1'' 5, bar ''d2'' 6, bar ''d3'' 7, bar ''d4'' 8]
                   (demo_config ALGO) [] [] [] Map.empty 1) = Fin 1000"
    using simulate_Suc [of _ _ _ _ _ _ 0]
    by (simp add: simulate_0 step_def initial_def demo_config_def js_max_def num_def)
  from warmup_hold [OF a b c, of "[]" "[]" "[]" Map.empty] a b c d show ?thesis
    by (simp add: bar_def)
qed

section \<open>The win rate\<close>

lemma sells_opened_snoc:
  assumes old: "\<forall>i < length ts. type (ts ! i) = SELL \<longrightarrow> (\<exists>j < i. type (ts ! j) = BUY)"
    and new: "type t = SELL \<longrightarrow> (\<exists>j < length ts. type (ts ! j) = BUY)"
  shows "\<forall>i < length (ts @ [t]).
           type ((ts @ [t]) ! i) = SELL \<longrightarrow> (\<exists>j < i. type ((ts @ [t]) ! j) = BUY)"
proof (intro allI impI)
  fix i
  assume i: "i < length (ts @ [t])" and sell: "type ((ts @ [t]) ! i) = SELL"
  have "\<exists>j < i. j < length ts \<and> type (ts ! j) = BUY"
  proof (cases "i < length ts")
    case True
    with sell have "type (ts ! i) = SELL" by (simp add: nth_append)
    with old True obtain j where "j < i" "type (ts ! j) = BUY" by blast
    with True show ?thesis by (intro exI [of _ j]) simp
  next
    case False
    with i have eq: "i = length ts" by simp
    with sell have "type t = SELL" by simp
    with new obtain j where "j < length ts" "type (ts ! j) = BUY" by blast
    with eq show ?thesis by (intro exI [of _ j]) simp
  qed
  then obtain j where j: "j < i" "j < length ts" "type (ts ! j) = BUY" by blast
  from j(2,3) have "type ((ts @ [t]) ! j) = BUY" by (simp add: nth_append)
  with j(1) show "\<exists>j < i. type ((ts @ [t]) ! j) = BUY" by blast
qed

lemma opened_before_sell_executeTrade:
  assumes "opened_before_sell st"
  shows "opened_before_sell (executeTrade st sg rsn px dt)"
proof (cases rule: executeTrade_cases [where st = st and sg = sg and rsn = rsn and px = px and dt = dt])
  case Noop
  with assms show ?thesis by simp
next
  case Buy
  from assms have old: "\<forall>i < length (Sim.trades st).
      type (Sim.trades st ! i) = SELL \<longrightarrow> (\<exists>j < i. type (Sim.trades st ! j) = BUY)"
    by (simp add: opened_before_sell_def)
  have tr: "Sim.trades (bought st rsn px dt) =
              Sim.trades st @ [last (Sim.trades (bought st rsn px dt))]"
    and ty: "type (last (Sim.trades (bought st rsn px dt))) = BUY"
    by (simp_all add: bought_def)
  from ty have "type (last (Sim.trades (bought st rsn px dt))) = SELL \<longrightarrow>
      (\<exists>j < length (Sim.trades st). type (Sim.trades st ! j) = BUY)"
    by simp
  from sells_opened_snoc [OF old this] tr
  have 1: "\<forall>i < length (Sim.trades (bought st rsn px dt)).
      type (Sim.trades (bought st rsn px dt) ! i) = SELL \<longrightarrow>
      (\<exists>j < i. type (Sim.trades (bought st rsn px dt) ! j) = BUY)"
    by simp
  have 2: "BUY \<in> type ` set (Sim.trades (bought st rsn px dt))"
    by (simp add: bought_def)
  from 1 2 Buy(5) show ?thesis by (simp only: opened_before_sell_def) simp
next
  case Sell
  from assms have old: "\<forall>i < length (Sim.trades st).
      type (Sim.trades st ! i) = SELL \<longrightarrow> (\<exists>j < i. type (Sim.trades st ! j) = BUY)"
    by (simp add: opened_before_sell_def)
  from Sell(2) have "holdings st \<noteq> Fin 0" by (auto simp: js_gt_def)
  with assms have "BUY \<in> type ` set (Sim.trades st)"
    by (auto simp: opened_before_sell_def)
  then obtain x where x: "x \<in> set (Sim.trades st)" "type x = BUY" by force
  from x(1) obtain j where "j < length (Sim.trades st)" "Sim.trades st ! j = x"
    by (auto simp: in_set_conv_nth)
  with x(2) have new: "\<exists>j < length (Sim.trades st). type (Sim.trades st ! j) = BUY"
    by blast
  have tr: "Sim.trades (sold st rsn px dt) =
              Sim.trades st @ [last (Sim.trades (sold st rsn px dt))]"
    and h: "holdings (sold st rsn px dt) = Fin 0"
    by (simp_all add: sold_def)
  from new have "type (last (Sim.trades (sold st rsn px dt))) = SELL \<longrightarrow>
      (\<exists>j < length (Sim.trades st). type (Sim.trades st ! j) = BUY)"
    by simp
  from sells_opened_snoc [OF old this] tr
  have 1: "\<forall>i < length (Sim.trades (sold st rsn px dt)).
      type (Sim.trades (sold st rsn px dt) ! i) = SELL \<longrightarrow>
      (\<exists>j < i. type (Sim.trades (sold st rsn px dt) ! j) = BUY)"
    by simp
  from 1 h Sell(3) show ?thesis by (simp only: opened_before_sell_def) simp
qed

lemma opened_before_sell_step:
  assumes "opened_before_sell st"
  shows "opened_before_sell (step data config s l r m i st)"
proof (cases rule: step_cases [where config = config and i = i and data = data and s = s
                                 and l = l and r = r and m = m and st = st])
  case Skip
  with assms show ?thesis by (simp add: opened_before_sell_def)
next
  case (Trade sg rsn)
  with opened_before_sell_executeTrade [OF assms] show ?thesis
    by (simp add: opened_before_sell_def)
qed

lemma opened_before_sell_simulate: "opened_before_sell (simulate data config s l r m k)"
proof (induction k)
  case 0
  show ?case by (simp add: simulate_0 initial_def opened_before_sell_def)
next
  case (Suc k)
  then show ?case by (simp add: simulate_Suc opened_before_sell_step)
qed

lemma entryPrice_nearest:
  assumes "\<exists>j < i. type (ts ! j) = BUY"
  shows "\<exists>j. nearest_buy ts i j \<and> entryPrice ts i = price (ts ! j)"
  using assms
proof (induction i)
  case 0
  then show ?case by simp
next
  case (Suc i)
  show ?case
  proof (cases "type (ts ! i) = BUY")
    case True
    then have "nearest_buy ts (Suc i) i \<and> entryPrice ts (Suc i) = price (ts ! i)"
      by (auto simp: nearest_buy_def)
    then show ?thesis by blast
  next
    case False
    from Suc.prems obtain j0 where j0: "j0 < Suc i" "type (ts ! j0) = BUY" by blast
    with False have "j0 \<noteq> i" by blast
    with j0(1) have "j0 < i" by simp
    with j0(2) have "\<exists>j < i. type (ts ! j) = BUY" by blast
    with Suc.IH obtain j where j: "nearest_buy ts i j" "entryPrice ts i = price (ts ! j)"
      by blast
    from j(1) False have "nearest_buy ts (Suc i) j"
      by (auto simp: nearest_buy_def less_Suc_eq)
    with j(2) False show ?thesis by auto
  qed
qed

lemma nearest_buy_unique:
  assumes "nearest_buy ts i j" and "nearest_buy ts i j'"
  shows "j = j'"
proof (rule ccontr)
  assume "j \<noteq> j'"
  then consider "j < j'" | "j' < j" by linarith
  then show False
  proof cases
    case 1
    with assms show False by (auto simp: nearest_buy_def)
  next
    case 2
    with assms show False by (auto simp: nearest_buy_def)
  qed
qed

lemma profitable_iff:
  assumes "type (ts ! i) = SELL \<longrightarrow> (\<exists>j < i. type (ts ! j) = BUY)"
  shows "profitable ts i = profitable_sell ts i"
proof (cases "type (ts ! i) = SELL")
  case False
  then show ?thesis by (simp add: profitable_def profitable_sell_def)
next
  case True
  with assms obtain j where j: "nearest_buy ts i j" "entryPrice ts i = price (ts ! j)"
    using entryPrice_nearest by blast
  from j(1) have lt: "j < i" by (simp add: nearest_buy_def)
  have "(\<exists>j' \<in> {..<i}. nearest_buy ts i j' \<and> js_gt (price (ts ! i)) (price (ts ! j'))) =
        js_gt (price (ts ! i)) (price (ts ! j))"
  proof
    assume "\<exists>j' \<in> {..<i}. nearest_buy ts i j' \<and> js_gt (price (ts ! i)) (price (ts ! j'))"
    then obtain j' where j': "nearest_buy ts i j'" "js_gt (price (ts ! i)) (price (ts ! j'))"
      by blast
    from nearest_buy_unique [OF j(1) j'(1)] j'(2)
    show "js_gt (price (ts ! i)) (price (ts ! j))" by simp
  next
    assume "js_gt (price (ts ! i)) (price (ts ! j))"
    with j(1) lt
    show "\<exists>j' \<in> {..<i}. nearest_buy ts i j' \<and> js_gt (price (ts ! i)) (price (ts ! j'))"
      by blast
  qed
  with True j(2) show ?thesis by (simp only: profitable_def profitable_sell_def if_True simp_thms)
qed

lemma length_filter_upt: "length (filter P [0..<n]) = card {i \<in> {..<n}. P i}"
proof -
  have "set (filter P [0..<n]) = {i \<in> {..<n}. P i}" by auto
  with distinct_card [of "filter P [0..<n]"] show ?thesis by simp
qed

lemma calcWinRate_spec:
  assumes "\<forall>i < length ts. type (ts ! i) = SELL \<longrightarrow> (\<exists>j < i. type (ts ! j) = BUY)"
  shows "calcWinRate ts =
           (if totalSells ts = 0 then Fin 0
            else js_mul (js_div (num (profitableSells ts)) (num (totalSells ts))) (Fin 100))"
proof -
  have "filter (profitable ts) [0..<length ts] = filter (profitable_sell ts) [0..<length ts]"
    using assms by (intro filter_cong) (auto simp: profitable_iff)
  then have p: "length (filter (profitable ts) [0..<length ts]) = profitableSells ts"
    by (simp add: length_filter_upt profitableSells_def)
  have "{i. i < length ts \<and> type (ts ! i) = SELL} = {i \<in> {..<length ts}. type (ts ! i) = SELL}"
    by auto
  then have s: "length (filter (\<lambda>t. type t = SELL) ts) = totalSells ts"
    by (simp add: length_filter_conv_card totalSells_def)
  show ?thesis by (simp add: calcWinRate_def Let_def p s)
qed

lemma profitableSells_le: "profitableSells ts \<le> totalSells ts"
  unfolding profitableSells_def totalSells_def
  by (rule card_mono) (auto simp: profitable_sell_def)

text \<open>A ratio of two counts, times 100, stays between 0 and 100 after both roundings.\<close>

lemma percent_bounds:
  assumes "p \<le> s" and "0 < s"
  shows "\<exists>w. js_mul (js_div (num p) (num s)) (Fin 100) = Fin w \<and> 0 \<le> w \<and> w \<le> 100"
proof -
  from assms have q0: "0 \<le> real p / real s" by simp
  from assms have q1: "real p / real s \<le> real_of_int 1" by (simp add: divide_le_eq_1)
  from q0 q1 have "\<bar>real p / real s\<bar> < 9007199254740992" by simp
  from fl_unit [OF q0 q1 this] obtain q where
    q: "fl (real p / real s) = Fin q" "0 \<le> q" "q \<le> 1" by auto
  from q(2) have w0: "0 \<le> q * 100" by simp
  from q(3) have w1: "q * 100 \<le> real_of_int 100" by simp
  from w0 w1 have "\<bar>q * 100\<bar> < 9007199254740992" by simp
  from fl_unit [OF w0 w1 this] obtain w where
    w: "fl (q * 100) = Fin w" "0 \<le> w" "w \<le> 100" by auto
  from assms(2) q(1) w show ?thesis by (simp add: num_def)
qed

text \<open>
  Claim C9. For the trade list of every result of \<open>runBacktest\<close>, the reported win rate is
  \<open>profitableSells / totalSells * 100\<close>, computed in double arithmetic from the two
  counts, a sell being profitable exactly when its price exceeds the price of the nearest
  BUY before it; it is \<open>0\<close> when there is no sell, and it always lies between \<open>0\<close> and
  \<open>100\<close>.
\<close>

theorem win_rate:
  assumes "runBacktest data config aiSignals = Inr res"
  shows "winRate res =
           (if totalSells (BacktestResult.trades res) = 0 then Fin 0
            else js_mul (js_div (num (profitableSells (BacktestResult.trades res)))
                                (num (totalSells (BacktestResult.trades res)))) (Fin 100)) \<and>
         js_le (Fin 0) (winRate res) \<and> js_le (winRate res) (Fin 100)"
proof -
  from assms obtain rsi where
    t: "BacktestResult.trades res =
       Sim.trades (simulate data config (calculateSMA data (shortWindow config))
         (calculateSMA data (longWindow config)) rsi (aiSignalMap config aiSignals)
         (length data))"
    and w: "winRate res = calcWinRate (BacktestResult.trades res)"
    by (rule runBacktest_Inr)
  from opened_before_sell_simulate
         [of data config "calculateSMA data (shortWindow config)"
            "calculateSMA data (longWindow config)" rsi "aiSignalMap config aiSignals"
            "length data"] t
  have "\<forall>i < length (BacktestResult.trades res).
          type (BacktestResult.trades res ! i) = SELL \<longrightarrow>
          (\<exists>j < i. type (BacktestResult.trades res ! j) = BUY)"
    by (simp add: opened_before_sell_def)
  from calcWinRate_spec [OF this] w have eq: "winRate res =
           (if totalSells (BacktestResult.trades res) = 0 then Fin 0
            else js_mul (js_div (num (profitableSells (BacktestResult.trades res)))
                                (num (totalSells (BacktestResult.trades res)))) (Fin 100))"
    by simp
  have "js_le (Fin 0) (winRate res) \<and> js_le (winRate res) (Fin 100)"
  proof (cases "totalSells (BacktestResult.trades res) = 0")
    case True
    with eq show ?thesis by (simp add: js_le_def)
  next
    case False
    then have pos: "0 < totalSells (BacktestResult.trades res)" by simp
    from percent_bounds [OF profitableSells_le pos] obtain x where
      x: "js_mul (js_div (num (profitableSells (BacktestResult.trades res)))
                         (num (totalSells (BacktestResult.trades res)))) (Fin 100) = Fin x"
         "0 \<le> x" "x \<le> 100"
      by blast
    from x(2,3) have "js_le (Fin 0) (Fin x) \<and> js_le (Fin x) (Fin 100)"
      by (simp add: js_le_def not_less)
    with False x(1) show ?thesis
      by (simp only: eq if_False)
  qed
  with eq show ?thesis by blast
qed

theorem win_rate_witness:
  "runBacktest [bar ''d1'' 1, bar ''d2'' 2, bar ''d3'' 3] (demo_config AI)
     (Some [sig ''d1'' BUY, sig ''d2'' SELL, sig ''d3'' SELL]) =
   Inr \<lparr>BacktestResult.trades =
          [\<lparr>Trade.date = ''d1'', type = BUY, price = Fin 1, amount = Fin 990,
            balanceAfter = Fin 1000, reason = ''r''\<rparr>,
           \<lparr>Trade.date = ''d2'', type = SELL, price = Fin 2, amount = Fin 990,
            balanceAfter = Fin 1990, reason = ''r''\<rparr>],
        finalBalance = Fin 1990, totalReturn = Fin 99, winRate = Fin 100,
        maxDrawdown = Fin 0,
        history =
          [\<lparr>HistoryPoint.date = ''d1'', balance = Fin 1000\<rparr>,
           \<lparr>HistoryPoint.date = ''d2'', balance = Fin 1990\<rparr>,
           \<lparr>HistoryPoint.date = ''d3'', balance = Fin 1990\<rparr>]\<rparr> \<and>
   totalSells
     [\<lparr>Trade.date = ''d1'', type = BUY, price = Fin 1, amount = Fin 990,
       balanceAfter = Fin 1000, reason = ''r''\<rparr>,
      \<lparr>Trade.date = ''d2'', type = SELL, price = Fin 2, amount = Fin 990,
       balanceAfter = Fin 1990, reason = ''r''\<rparr>] = 1 \<and>
   profitableSells
     [\<lparr>Trade.date = ''d1'', type = BUY, price = Fin 1, amount = Fin 990,
       balanceAfter = Fin 1000, reason = ''r''\<rparr>,
      \<lparr>Trade.date = ''d2'', type = SELL, price = Fin 2, amount = Fin 990,
       balanceAfter = Fin 1990, reason = ''r''\<rparr>] = 1 \<and>
   Fin 100 = js_mul (js_div (num 1) (num 1)) (Fin 100) \<and>
   js_le (Fin 0) (Fin 100) \<and> js_le (Fin 100) (Fin 100)"
proof -
  have sells: "totalSells
     [\<lparr>Trade.date = ''d1'', type = BUY, price = Fin 1, amount = Fin 990,
       balanceAfter = Fin 1000, reason = ''r''\<rparr>,
      \<lparr>Trade.date = ''d2'', type = SELL, price = Fin 2, amount = Fin 990,
       balanceAfter = Fin 1990, reason = ''r''\<rparr>] = 1"
    by code_simp
  have wins: "profitableSells
     [\<lparr>Trade.date = ''d1'', type = BUY, price = Fin 1, amount = Fin 990,
       balanceAfter = Fin 1000, reason = ''r''\<rparr>,
      \<lparr>Trade.date = ''d2'', type = SELL, price = Fin 2, amount = Fin 990,
       balanceAfter = Fin 1990, reason = ''r''\<rparr>] = 1"
    by code_simp
  from win_rate [OF sample_run] sample_run sells wins show ?thesis by simp
qed

end
